theory Spec2Isabelle
  imports Complex_Main
begin

section \<open>Order book core (src/src/core/orderbook.py)\<close>

text \<open>
  Python floats are modelled as \<open>real\<close>: comparisons, sums and quotients are the exact
  ones, rounding is not modelled. Python's \<open>None\<close> is \<open>None\<close> of an option type, a raised
  exception is the left injection of a sum type.
\<close>

datatype error = ValueError string | KeyError real

record Order =
  order_price :: real
  order_quantity :: real
  order_id :: "string option"
  timestamp :: "int option"

record PriceLevel =
  level_price :: real
  orders :: "Order list"
  total_quantity :: real

text \<open>\<open>Order(price, quantity)\<close>: the two optional fields default to \<open>None\<close>.\<close>

definition Order_init :: "real \<Rightarrow> real \<Rightarrow> Order" where
  "Order_init p q = \<lparr>order_price = p, order_quantity = q, order_id = None, timestamp = None\<rparr>"

definition PriceLevel_init :: "real \<Rightarrow> PriceLevel" where
  "PriceLevel_init p = \<lparr>level_price = p, orders = [], total_quantity = 0\<rparr>"

definition add_order :: "PriceLevel \<Rightarrow> Order \<Rightarrow> PriceLevel" where
  "add_order l ord = l\<lparr>orders := orders l @ [ord],
                        total_quantity := total_quantity l + order_quantity ord\<rparr>"

record OrderBook =
  symbol :: string
  max_levels :: int
  bid_prices :: "real list"
  ask_prices :: "real list"
  bid_levels :: "real \<rightharpoonup> PriceLevel"
  ask_levels :: "real \<rightharpoonup> PriceLevel"
  cache_best_bid :: "real option"
  cache_best_ask :: "real option"
  cache_mid_price :: "real option"
  update_count :: int
  last_update_time :: "int option"

definition OrderBook_init :: "string \<Rightarrow> int \<Rightarrow> OrderBook" where
  "OrderBook_init s m = \<lparr>symbol = s, max_levels = m, bid_prices = [], ask_prices = [],
     bid_levels = Map.empty, ask_levels = Map.empty,
     cache_best_bid = None, cache_best_ask = None, cache_mid_price = None,
     update_count = 0, last_update_time = None\<rparr>"

text \<open>Python truthiness of an \<open>Optional[float]\<close>: \<open>None\<close> and \<open>0.0\<close> are false.\<close>

definition truthy :: "real option \<Rightarrow> bool" where
  "truthy v = (case v of None \<Rightarrow> False | Some x \<Rightarrow> x \<noteq> 0)"

text \<open>
  The body of the \<open>for price, quantity in sorted(...)\<close> loop of \<open>update_bids\<close> and
  \<open>update_asks\<close>, run over the already sorted entries; the accumulator is the cleared
  price list and level dictionary. Every retained entry appends its price and stores a
  fresh one-order level under that price.
\<close>

fun rebuild_side :: "(real \<times> real) list \<Rightarrow> real list \<times> (real \<rightharpoonup> PriceLevel)
    \<Rightarrow> real list \<times> (real \<rightharpoonup> PriceLevel)" where
  "rebuild_side [] acc = acc"
| "rebuild_side ((price, quantity) # rest) (prices, levels) =
     (if price > 0 \<and> quantity > 0
      then rebuild_side rest
             (prices @ [price],
              levels(price \<mapsto> add_order (PriceLevel_init price) (Order_init price quantity)))
      else rebuild_side rest (prices, levels))"

definition update_caches :: "OrderBook \<Rightarrow> OrderBook" where
  "update_caches b =
     (let b1 = (case bid_prices b of [] \<Rightarrow> b | p # _ \<Rightarrow> b\<lparr>cache_best_bid := Some p\<rparr>);
          b2 = (case ask_prices b1 of [] \<Rightarrow> b1 | p # _ \<Rightarrow> b1\<lparr>cache_best_ask := Some p\<rparr>)
      in if truthy (cache_best_bid b2) \<and> truthy (cache_best_ask b2)
         then b2\<lparr>cache_mid_price :=
                   Some ((the (cache_best_bid b2) + the (cache_best_ask b2)) / 2)\<rparr>
         else b2)"

text \<open>
  \<open>sorted(bids, key=lambda x: x[0], reverse=True)\<close> is a stable sort by descending price
  (entries of equal price keep their order), which is \<open>sort_key\<close> on the negated price.
\<close>

definition update_bids :: "OrderBook \<Rightarrow> (real \<times> real) list \<Rightarrow> OrderBook" where
  "update_bids b bids =
     (let (ps, lv) = rebuild_side (sort_key (\<lambda>x. - fst x) bids) ([], Map.empty);
          b1 = update_caches (b\<lparr>bid_prices := ps, bid_levels := lv\<rparr>)
      in b1\<lparr>update_count := update_count b1 + 1\<rparr>)"

definition update_asks :: "OrderBook \<Rightarrow> (real \<times> real) list \<Rightarrow> OrderBook" where
  "update_asks b asks =
     (let (ps, lv) = rebuild_side (sort_key fst asks) ([], Map.empty);
          b1 = update_caches (b\<lparr>ask_prices := ps, ask_levels := lv\<rparr>)
      in b1\<lparr>update_count := update_count b1 + 1\<rparr>)"

definition best_bid :: "OrderBook \<Rightarrow> real option" where
  "best_bid b = cache_best_bid b"

definition best_ask :: "OrderBook \<Rightarrow> real option" where
  "best_ask b = cache_best_ask b"

definition mid_price :: "OrderBook \<Rightarrow> real option" where
  "mid_price b = cache_mid_price b"

definition get_spread :: "OrderBook \<Rightarrow> real option" where
  "get_spread b =
     (if truthy (best_bid b) \<and> truthy (best_ask b)
      then Some (the (best_ask b) - the (best_bid b)) else None)"

subsection \<open>Depth queries\<close>

record LevelInfo =
  info_price :: real
  info_quantity :: real
  info_order_count :: nat

record Depth =
  bids :: "LevelInfo list"
  asks :: "LevelInfo list"
  total_bid_volume :: real
  total_ask_volume :: real

text \<open>A Python slice \<open>xs[:n]\<close>; a negative \<open>n\<close> counts from the end.\<close>

definition py_take :: "int \<Rightarrow> 'a list \<Rightarrow> 'a list" where
  "py_take n xs = (if n < 0 then take (length xs - nat (- n)) xs else take (nat n) xs)"

text \<open>
  One of the two loops of \<open>get_depth\<close>: the accumulator is the list built so far and the
  running volume; \<open>level_dict[price]\<close> raises on a missing key.
\<close>

fun depth_side :: "(real \<rightharpoonup> PriceLevel) \<Rightarrow> real list \<Rightarrow> LevelInfo list \<times> real
    \<Rightarrow> error + (LevelInfo list \<times> real)" where
  "depth_side lv [] acc = Inr acc"
| "depth_side lv (price # rest) (infos, vol) =
     (case lv price of
        None \<Rightarrow> Inl (KeyError price)
      | Some level \<Rightarrow>
          depth_side lv rest
            (infos @ [\<lparr>info_price = price, info_quantity = total_quantity level,
                       info_order_count = length (orders level)\<rparr>],
             vol + total_quantity level))"

definition get_depth :: "OrderBook \<Rightarrow> int \<Rightarrow> error + Depth" where
  "get_depth b levels =
     (case depth_side (bid_levels b) (py_take levels (bid_prices b)) ([], 0) of
        Inl e \<Rightarrow> Inl e
      | Inr (bs, bv) \<Rightarrow>
          (case depth_side (ask_levels b) (py_take levels (ask_prices b)) ([], 0) of
             Inl e \<Rightarrow> Inl e
           | Inr (as, av) \<Rightarrow>
               Inr \<lparr>bids = bs, asks = as, total_bid_volume = bv, total_ask_volume = av\<rparr>))"

subsection \<open>VWAP and slippage estimation\<close>

record VwapResult =
  vwap :: real
  filled :: real
  remaining :: real

text \<open>The message of the \<open>ValueError\<close> that \<open>estimate_vwap\<close> raises; it ends in a quote.\<close>

definition side_message :: string where
  "side_message = ''Side must be 'buy' or 'sell'' @ [CHR 0x27]"

text \<open>
  The \<open>for price in levels\<close> loop of \<open>estimate_vwap\<close>; the accumulator is
  \<open>(total_cost, filled_quantity)\<close>, the \<open>break\<close> is the branch that does not recurse.
\<close>

fun vwap_walk :: "real \<Rightarrow> (real \<rightharpoonup> PriceLevel) \<Rightarrow> real list \<Rightarrow> real \<times> real
    \<Rightarrow> error + (real \<times> real)" where
  "vwap_walk quantity lv [] acc = Inr acc"
| "vwap_walk quantity lv (price # rest) (total_cost, filled_quantity) =
     (case lv price of
        None \<Rightarrow> Inl (KeyError price)
      | Some level \<Rightarrow>
          (let available = total_quantity level in
           if filled_quantity + available \<le> quantity
           then vwap_walk quantity lv rest
                  (total_cost + price * available, filled_quantity + available)
           else Inr (total_cost + price * (quantity - filled_quantity), quantity)))"

definition estimate_vwap :: "OrderBook \<Rightarrow> real \<Rightarrow> string \<Rightarrow> error + VwapResult" where
  "estimate_vwap b quantity side =
     (if side \<notin> set [''buy'', ''sell'']
      then Inl (ValueError side_message)
      else
        (let levels = (if side = ''buy'' then ask_prices b else bid_prices b);
             level_dict = (if side = ''buy'' then ask_levels b else bid_levels b)
         in case vwap_walk quantity level_dict levels (0, 0) of
              Inl e \<Rightarrow> Inl e
            | Inr (total_cost, filled_quantity) \<Rightarrow>
                if filled_quantity = 0
                then Inr \<lparr>vwap = 0, filled = 0, remaining = quantity\<rparr>
                else Inr \<lparr>vwap = total_cost / filled_quantity, filled = filled_quantity,
                          remaining = quantity - filled_quantity\<rparr>))"

text \<open>
  The result dictionary of \<open>estimate_slippage\<close> has two keys on the early returns and
  five otherwise; the three further keys are optional fields here.
\<close>

record SlippageResult =
  slippage_bps :: real
  slippage_abs :: real
  slip_vwap :: "real option"
  slip_mid_price :: "real option"
  slip_filled :: "real option"

definition zero_slippage :: SlippageResult where
  "zero_slippage = \<lparr>slippage_bps = 0, slippage_abs = 0, slip_vwap = None,
     slip_mid_price = None, slip_filled = None\<rparr>"

definition estimate_slippage :: "OrderBook \<Rightarrow> real \<Rightarrow> string \<Rightarrow> error + SlippageResult" where
  "estimate_slippage b quantity side =
     (if \<not> truthy (mid_price b) then Inr zero_slippage
      else
        (case estimate_vwap b quantity side of
           Inl e \<Rightarrow> Inl e
         | Inr vwap_result \<Rightarrow>
             if filled vwap_result = 0 then Inr zero_slippage
             else
               (let v = vwap vwap_result;
                    mid = the (mid_price b);
                    sabs = (if side = ''buy'' then v - mid else mid - v)
                in Inr \<lparr>slippage_bps = (sabs / mid) * 10000, slippage_abs = sabs,
                        slip_vwap = Some v, slip_mid_price = Some mid,
                        slip_filled = Some (filled vwap_result)\<rparr>)))"

subsection \<open>Book states\<close>

text \<open>
  The states a book can be in: a fresh book, and whatever a sequence of \<open>update_bids\<close>
  and \<open>update_asks\<close> calls makes of it.
\<close>

inductive reachable :: "OrderBook \<Rightarrow> bool" where
  reach_init: "reachable (OrderBook_init s m)"
| reach_bids: "reachable b \<Longrightarrow> reachable (update_bids b entries)"
| reach_asks: "reachable b \<Longrightarrow> reachable (update_asks b entries)"

text \<open>The entries an update keeps: positive price and positive quantity.\<close>

definition retained :: "(real \<times> real) list \<Rightarrow> (real \<times> real) list" where
  "retained entries = filter (\<lambda>(p, q). p > 0 \<and> q > 0) entries"

text \<open>
  The resting quantity of one side as the queries see it: the stored quantity of the level
  found under each price of the price list, summed along the list.
\<close>

definition level_quantity :: "(real \<rightharpoonup> PriceLevel) \<Rightarrow> real \<Rightarrow> real" where
  "level_quantity lv p = (case lv p of None \<Rightarrow> 0 | Some l \<Rightarrow> total_quantity l)"

definition side_liquidity :: "(real \<rightharpoonup> PriceLevel) \<Rightarrow> real list \<Rightarrow> real" where
  "side_liquidity lv ps = sum_list (map (level_quantity lv) ps)"


text \<open>
  The fill the specification describes, written from its words: whole levels are consumed
  from the front of the side while they fit into what is still wanted, and the first level
  that does not fit gives the rest and ends the walk. The result lists the quantity taken
  at each price touched.
\<close>

fun take_levels :: "real \<Rightarrow> (real \<times> real) list \<Rightarrow> (real \<times> real) list" where
  "take_levels wanted [] = []"
| "take_levels wanted ((p, available) # rest) =
     (if available \<le> wanted then (p, available) # take_levels (wanted - available) rest
      else [(p, wanted)])"

definition opposing_side :: "OrderBook \<Rightarrow> string \<Rightarrow> (real \<times> real) list" where
  "opposing_side b side =
     (if side = ''buy'' then map (\<lambda>p. (p, level_quantity (ask_levels b) p)) (ask_prices b)
      else map (\<lambda>p. (p, level_quantity (bid_levels b) p)) (bid_prices b))"

text \<open>What holds of every reachable book, used to carry facts along update sequences.\<close>

definition side_ok :: "real list \<Rightarrow> (real \<rightharpoonup> PriceLevel) \<Rightarrow> bool" where
  "side_ok ps lv = (\<forall>p\<in>set ps. 0 < p \<and> (\<exists>l. lv p = Some l \<and> 0 < total_quantity l))"

definition cache_ok :: "real list \<Rightarrow> real option \<Rightarrow> bool" where
  "cache_ok ps c = ((ps \<noteq> [] \<longrightarrow> c = Some (hd ps)) \<and> (\<forall>x. c = Some x \<longrightarrow> 0 < x))"

definition mid_of :: "real option \<Rightarrow> real option \<Rightarrow> real option" where
  "mid_of bb ba =
     (case bb of None \<Rightarrow> None
      | Some x \<Rightarrow> (case ba of None \<Rightarrow> None | Some y \<Rightarrow> Some ((x + y) / 2)))"

definition book_inv :: "OrderBook \<Rightarrow> bool" where
  "book_inv b =
     (side_ok (bid_prices b) (bid_levels b) \<and> side_ok (ask_prices b) (ask_levels b)
      \<and> cache_ok (bid_prices b) (cache_best_bid b)
      \<and> cache_ok (ask_prices b) (cache_best_ask b)
      \<and> cache_mid_price b = mid_of (cache_best_bid b) (cache_best_ask b)
      \<and> sorted (rev (bid_prices b)) \<and> sorted (ask_prices b))"

section \<open>Spread analyzer (src/src/analytics/spread_analyzer.py)\<close>

record SpreadMetrics =
  absolute_spread :: real
  relative_spread :: real
  spread_bps :: real
  effective_spread :: real
  price_impact :: real
  spread_volatility :: real
  is_wide_spread :: bool

definition SpreadMetrics_init :: SpreadMetrics where
  "SpreadMetrics_init = \<lparr>absolute_spread = 0, relative_spread = 0, spread_bps = 0,
     effective_spread = 0, price_impact = 0, spread_volatility = 0, is_wide_spread = False\<rparr>"

text \<open>
  The analyzer holds a reference to the book; the field is the book as it is when the
  analyzer is called.
\<close>

record SpreadAnalyzer =
  orderbook :: OrderBook
  history :: "SpreadMetrics list"
  max_history :: nat

definition SpreadAnalyzer_init :: "OrderBook \<Rightarrow> SpreadAnalyzer" where
  "SpreadAnalyzer_init b = \<lparr>orderbook = b, history = [], max_history = 1000\<rparr>"

text \<open>
  numpy is an external library. The three functions of it that the analyzer calls are a
  parameter of the model: what is proved for every value of the parameter holds for
  whatever \<open>numpy.mean\<close>, \<open>numpy.std\<close> and \<open>numpy.sqrt\<close> return in float64.
\<close>

record Numpy =
  np_mean :: "real list \<Rightarrow> real"
  np_std :: "real list \<Rightarrow> real"
  np_sqrt :: "real \<Rightarrow> real"

text \<open>
  The mean, the population standard deviation and the square root in exact arithmetic.
  They are not numpy's functions: on a list of equal values whose sum is rounded,
  \<open>numpy.mean\<close> misses the value by an ulp and \<open>numpy.std\<close> is positive where the exact
  one is 0. The two agree where no intermediate result is rounded, as on a list of equal
  dyadic values of few bits (every partial sum and the quotient are representable, the
  deviations are 0) and at \<open>sqrt 1\<close>. The exact functions instantiate the parameter at such
  inputs only, in the examples below.
\<close>

definition exact_mean :: "real list \<Rightarrow> real" where
  "exact_mean xs = sum_list xs / real (length xs)"

definition exact_std :: "real list \<Rightarrow> real" where
  "exact_std xs = sqrt (exact_mean (map (\<lambda>x. (x - exact_mean xs)\<^sup>2) xs))"

definition exact_numpy :: Numpy where
  "exact_numpy = \<lparr>np_mean = exact_mean, np_std = exact_std, np_sqrt = sqrt\<rparr>"

text \<open>A Python slice \<open>xs[-n:]\<close> for a positive \<open>n\<close>: the last \<open>n\<close> elements.\<close>

definition py_last :: "nat \<Rightarrow> 'a list \<Rightarrow> 'a list" where
  "py_last n xs = drop (length xs - n) xs"

definition calculate_price_impact :: "Numpy \<Rightarrow> SpreadAnalyzer \<Rightarrow> real \<Rightarrow> error + real"
  where
  "calculate_price_impact np a quantity =
     (let b = orderbook a in
      if \<not> truthy (mid_price b) \<or> mid_price b = Some 0 then Inr 0
      else
        (case get_depth b 10 of
           Inl e \<Rightarrow> Inl e
         | Inr depth \<Rightarrow>
             if bids depth = [] \<or> asks depth = [] then Inr 0
             else
               (let bid_liquidity = sum_list (map info_quantity (bids depth));
                    ask_liquidity = sum_list (map info_quantity (asks depth));
                    avg_liquidity = (bid_liquidity + ask_liquidity) / 2
                in if avg_liquidity = 0 then Inr 0
                   else
                     (case get_spread b of
                        None \<Rightarrow> Inr 0
                      | Some spread \<Rightarrow>
                          (let lambda_est = spread / (avg_liquidity * the (mid_price b))
                           in Inr (lambda_est * np_sqrt np quantity * the (mid_price b)))))))"

definition detect_wide_spread :: "Numpy \<Rightarrow> SpreadAnalyzer \<Rightarrow> SpreadMetrics \<Rightarrow> bool" where
  "detect_wide_spread np a metrics =
     (if length (history a) < 10 then False
      else
        (let recent_spreads = map spread_bps (py_last 10 (history a));
             avg_spread = np_mean np recent_spreads;
             std_spread = np_std np recent_spreads
         in if std_spread > 0 \<and> spread_bps metrics > avg_spread + 3 * std_spread then True
            else if spread_bps metrics > 50 then True
            else False))"

text \<open>
  \<open>calculate_all_metrics\<close> returns the metrics record and leaves the analyzer with its
  history extended; on the early return the history is untouched.
\<close>

definition calculate_all_metrics ::
  "Numpy \<Rightarrow> SpreadAnalyzer \<Rightarrow> error + (SpreadMetrics \<times> SpreadAnalyzer)" where
  "calculate_all_metrics np a =
     (let b = orderbook a; spread = get_spread b; mid = mid_price b in
      if spread = None \<or> mid = None \<or> mid = Some 0 then Inr (SpreadMetrics_init, a)
      else
        (let m1 = SpreadMetrics_init\<lparr>absolute_spread := the spread,
                    relative_spread := (the spread / the mid) * 100\<rparr>;
             m2 = m1\<lparr>spread_bps := relative_spread m1 * 100\<rparr>;
             m3 = (if truthy (best_bid b) \<and> truthy (best_ask b)
                   then m2\<lparr>effective_spread :=
                          \<bar>2 * (the mid - (the (best_bid b) + the (best_ask b)) / 2)\<bar>\<rparr>
                   else m2)
         in case calculate_price_impact np a 1 of
              Inl e \<Rightarrow> Inl e
            | Inr impact \<Rightarrow>
                (let m4 = m3\<lparr>price_impact := impact\<rparr>;
                     m5 = (if length (history a) > 1
                           then (let spreads = map absolute_spread (py_last 100 (history a))
                                 in m4\<lparr>spread_volatility :=
                                        (if spreads \<noteq> [] then np_std np spreads else 0)\<rparr>)
                           else m4);
                     metrics = m5\<lparr>is_wide_spread := detect_wide_spread np a m5\<rparr>;
                     h1 = history a @ [metrics];
                     h2 = (if length h1 > max_history a then tl h1 else h1)
                 in Inr (metrics, a\<lparr>history := h2\<rparr>))))"

text \<open>A run of \<open>n\<close> successive \<open>calculate_all_metrics\<close> calls on an unchanged book.\<close>

fun repeat_metrics :: "Numpy \<Rightarrow> nat \<Rightarrow> SpreadAnalyzer \<Rightarrow> error + SpreadAnalyzer" where
  "repeat_metrics np 0 a = Inr a"
| "repeat_metrics np (Suc n) a =
     (case calculate_all_metrics np a of
        Inl e \<Rightarrow> Inl e
      | Inr (m, a') \<Rightarrow> repeat_metrics np n a')"

section \<open>Depth analyzer (src/src/analytics/depth_analyzer.py)\<close>

record DepthAnalyzer =
  depth_orderbook :: OrderBook
  depth_levels :: int

definition herfindahl_index :: "real list \<Rightarrow> real" where
  "herfindahl_index volumes =
     (let total = sum_list volumes in
      if total = 0 then 1 else sum_list (map (\<lambda>v. (v / total)\<^sup>2) volumes))"

definition calculate_resilience_score :: "Depth \<Rightarrow> real" where
  "calculate_resilience_score depth =
     (if length (bids depth) < 3 \<or> length (asks depth) < 3 then 0
      else
        (let bid_volumes = map info_quantity (bids depth);
             ask_volumes = map info_quantity (asks depth);
             bid_concentration = herfindahl_index bid_volumes;
             ask_concentration = herfindahl_index ask_volumes;
             resilience = 100 * (1 - (bid_concentration + ask_concentration) / 2)
         in max 0 (min 100 resilience)))"

text \<open>
  The \<open>depth_resilience\<close> field of the record \<open>DepthAnalyzer.calculate_all_metrics\<close>
  returns: the default \<open>0.0\<close> on the early return for an empty side, the resilience
  score of the queried depth otherwise. The other fields of the record are not modelled.
\<close>

definition depth_resilience :: "DepthAnalyzer \<Rightarrow> error + real" where
  "depth_resilience a =
     (case get_depth (depth_orderbook a) (depth_levels a) of
        Inl e \<Rightarrow> Inl e
      | Inr depth \<Rightarrow>
          if bids depth = [] \<or> asks depth = [] then Inr 0
          else Inr (calculate_resilience_score depth))"

section \<open>Example books\<close>

text \<open>
  The book of the specification's examples: bids \<open>[(100,2),(99,3)]\<close> and asks
  \<open>[(101,1),(102,4)]\<close> applied to a fresh book.
\<close>

definition example_book :: OrderBook where
  "example_book =
     update_asks (update_bids (OrderBook_init ''BTC-USD'' 1000) [(100, 2), (99, 3)])
       [(101, 1), (102, 4)]"

text \<open>
  Two books with the same three ask levels: one with five bid levels of quantity 5 each,
  one with the bid quantities \<open>[20,1,1,1,1]\<close>.
\<close>

definition uniform_book :: OrderBook where
  "uniform_book =
     update_asks
       (update_bids (OrderBook_init ''BTC-USD'' 1000)
          [(100, 5), (99, 5), (98, 5), (97, 5), (96, 5)])
       [(101, 1), (102, 1), (103, 1)]"

definition concentrated_book :: OrderBook where
  "concentrated_book =
     update_asks
       (update_bids (OrderBook_init ''BTC-USD'' 1000)
          [(100, 20), (99, 1), (98, 1), (97, 1), (96, 1)])
       [(101, 1), (102, 1), (103, 1)]"

text \<open>The same two bid sides over an ask side of two levels only.\<close>

definition thin_uniform_book :: OrderBook where
  "thin_uniform_book =
     update_asks
       (update_bids (OrderBook_init ''BTC-USD'' 1000)
          [(100, 5), (99, 5), (98, 5), (97, 5), (96, 5)])
       [(101, 1), (102, 1)]"

definition thin_concentrated_book :: OrderBook where
  "thin_concentrated_book =
     update_asks
       (update_bids (OrderBook_init ''BTC-USD'' 1000)
          [(100, 20), (99, 1), (98, 1), (97, 1), (96, 1)])
       [(101, 1), (102, 1)]"

text \<open>
  A book with best bid 1023 and best ask 1025 (spread 2, mid 1024, 19.53125 bps), the
  analyzer after ten \<open>calculate_all_metrics\<close> calls on it, and the same book after both
  sides moved out to 1022 and 1026 (spread 4, mid 1024, 39.0625 bps).
\<close>

definition quiet_book :: OrderBook where
  "quiet_book = update_asks (update_bids (OrderBook_init ''BTC-USD'' 1000) [(1023, 1)]) [(1025, 1)]"


definition quiet_metrics :: SpreadMetrics where
  "quiet_metrics = \<lparr>absolute_spread = 2, relative_spread = 25 / 128, spread_bps = 625 / 32,
     effective_spread = 0, price_impact = 2, spread_volatility = 0, is_wide_spread = False\<rparr>"


definition quiet_analyzer :: SpreadAnalyzer where
  "quiet_analyzer = \<lparr>orderbook = quiet_book, history = replicate 10 quiet_metrics,
     max_history = 1000\<rparr>"

section \<open>Facts about the rebuild of a side\<close>

lemma rebuild_side_prices:
  "fst (rebuild_side xs (ps, lv)) = ps @ map fst (retained xs)"
  by (induction xs "(ps, lv)" arbitrary: ps lv rule: rebuild_side.induct)
     (simp_all add: retained_def)

lemma rebuild_side_levels_inv:
  assumes "\<forall>p\<in>set ps. \<exists>l. lv p = Some l \<and> 0 < total_quantity l"
  shows "\<forall>p\<in>set (fst (rebuild_side xs (ps, lv))).
           \<exists>l. snd (rebuild_side xs (ps, lv)) p = Some l \<and> 0 < total_quantity l"
  using assms
proof (induction xs arbitrary: ps lv)
  case Nil
  then show ?case by simp
next
  case (Cons x xs)
  obtain p q where x: "x = (p, q)" by (cases x)
  show ?case
  proof (cases "p > 0 \<and> q > 0")
    case True
    have "\<forall>p'\<in>set (ps @ [p]).
            \<exists>l. (lv(p \<mapsto> add_order (PriceLevel_init p) (Order_init p q))) p' = Some l
              \<and> 0 < total_quantity l"
      using Cons.prems True by (auto simp: add_order_def PriceLevel_init_def Order_init_def)
    from Cons.IH[OF this] show ?thesis using True x by (simp del: fun_upd_apply)
  next
    case False
    from Cons.IH[OF Cons.prems] show ?thesis using False x by auto
  qed
qed

lemma retained_sort_key: "retained (sort_key f xs) = sort_key f (retained xs)"
  by (simp add: retained_def filter_sort)

lemma sorted_neg_rev:
  "sorted (map (\<lambda>x. - f x) ys) \<Longrightarrow> sorted (rev (map (f::'a \<Rightarrow> real) ys))"
  by (induction ys) (auto simp: sorted_append)

lemma rebuild_side_ok:
  "side_ok (fst (rebuild_side xs ([], Map.empty))) (snd (rebuild_side xs ([], Map.empty)))"
proof -
  have "\<forall>p\<in>set (fst (rebuild_side xs ([], Map.empty))). 0 < p"
    by (auto simp: rebuild_side_prices retained_def)
  moreover have "\<forall>p\<in>set (fst (rebuild_side xs ([], Map.empty))).
      \<exists>l. snd (rebuild_side xs ([], Map.empty)) p = Some l \<and> 0 < total_quantity l"
    by (rule rebuild_side_levels_inv) simp
  ultimately show ?thesis unfolding side_ok_def by blast
qed

lemma bid_rebuild_sorted:
  "sorted (rev (fst (rebuild_side (sort_key (\<lambda>x. - fst x) entries) ([], Map.empty))))"
proof -
  have "sorted (map (\<lambda>x. - fst x) (sort_key (\<lambda>x. - fst x) (retained entries)))"
    by simp
  then show ?thesis
    by (simp only: rebuild_side_prices retained_sort_key append_Nil sorted_neg_rev)
qed

lemma ask_rebuild_sorted:
  "sorted (fst (rebuild_side (sort_key fst entries) ([], Map.empty)))"
  by (simp add: rebuild_side_prices retained_sort_key)

section \<open>Facts about the caches\<close>

lemma update_caches_fields [simp]:
  "bid_prices (update_caches b) = bid_prices b"
  "ask_prices (update_caches b) = ask_prices b"
  "bid_levels (update_caches b) = bid_levels b"
  "ask_levels (update_caches b) = ask_levels b"
  "update_count (update_caches b) = update_count b"
  by (cases "bid_prices b"; cases "ask_prices b"; simp add: update_caches_def Let_def)+

lemma update_caches_best_bid:
  "cache_best_bid (update_caches b) =
     (case bid_prices b of [] \<Rightarrow> cache_best_bid b | p # _ \<Rightarrow> Some p)"
  by (cases "bid_prices b"; cases "ask_prices b"; simp add: update_caches_def Let_def)

lemma update_caches_best_ask:
  "cache_best_ask (update_caches b) =
     (case ask_prices b of [] \<Rightarrow> cache_best_ask b | p # _ \<Rightarrow> Some p)"
  by (cases "bid_prices b"; cases "ask_prices b"; simp add: update_caches_def Let_def)

lemma update_caches_mid:
  "cache_mid_price (update_caches b) =
     (if truthy (cache_best_bid (update_caches b)) \<and> truthy (cache_best_ask (update_caches b))
      then Some ((the (cache_best_bid (update_caches b))
                  + the (cache_best_ask (update_caches b))) / 2)
      else cache_mid_price b)"
  by (cases "bid_prices b"; cases "ask_prices b"; auto simp add: update_caches_def Let_def)

lemma update_caches_inv:
  assumes "side_ok (bid_prices b) (bid_levels b)" "side_ok (ask_prices b) (ask_levels b)"
    and "\<forall>x. cache_best_bid b = Some x \<longrightarrow> 0 < x" "\<forall>x. cache_best_ask b = Some x \<longrightarrow> 0 < x"
    and "cache_mid_price b = mid_of (cache_best_bid b) (cache_best_ask b)"
    and "sorted (rev (bid_prices b))" "sorted (ask_prices b)"
  shows "book_inv (update_caches b)"
proof -
  let ?c = "update_caches b"
  have bb: "cache_ok (bid_prices ?c) (cache_best_bid ?c)"
    using assms(1,3)
    by (auto simp: cache_ok_def update_caches_best_bid side_ok_def split: list.splits)
  have ba: "cache_ok (ask_prices ?c) (cache_best_ask ?c)"
    using assms(2,4)
    by (auto simp: cache_ok_def update_caches_best_ask side_ok_def split: list.splits)
  have mid: "cache_mid_price ?c = mid_of (cache_best_bid ?c) (cache_best_ask ?c)"
  proof (cases "truthy (cache_best_bid ?c) \<and> truthy (cache_best_ask ?c)")
    case True
    then show ?thesis
      by (auto simp: update_caches_mid truthy_def mid_of_def split: option.splits)
  next
    case False
    then have n: "cache_best_bid ?c = None \<or> cache_best_ask ?c = None"
      using bb ba by (auto simp: truthy_def cache_ok_def split: option.splits)
    then have "cache_best_bid b = None \<or> cache_best_ask b = None"
      by (auto simp: update_caches_best_bid update_caches_best_ask split: list.splits)
    then have "cache_mid_price b = None"
      using assms(5) by (auto simp: mid_of_def split: option.splits)
    then show ?thesis using False n
      by (auto simp: update_caches_mid mid_of_def split: option.splits)
  qed
  show ?thesis unfolding book_inv_def using assms(1,2,6,7) bb ba mid by simp
qed

lemma book_inv_init: "book_inv (OrderBook_init s m)"
  by (simp add: book_inv_def OrderBook_init_def side_ok_def cache_ok_def mid_of_def)

lemma book_inv_count: "book_inv (b\<lparr>update_count := c\<rparr>) = book_inv b"
  by (simp add: book_inv_def)

lemma book_inv_update_bids: "book_inv b \<Longrightarrow> book_inv (update_bids b entries)"
proof -
  assume inv: "book_inv b"
  obtain ps lv where r: "rebuild_side (sort_key (\<lambda>x. - fst x) entries) ([], Map.empty) = (ps, lv)"
    by (cases "rebuild_side (sort_key (\<lambda>x. - fst x) entries) ([], Map.empty)")
  have ok: "side_ok ps lv"
    using rebuild_side_ok[of "sort_key (\<lambda>x. - fst x) entries"] r by simp
  have srt: "sorted (rev ps)" using bid_rebuild_sorted[of entries] r by simp
  have "book_inv (update_caches (b\<lparr>bid_prices := ps, bid_levels := lv\<rparr>))"
    using inv ok srt by (intro update_caches_inv) (auto simp: book_inv_def cache_ok_def)
  then show ?thesis
    by (simp add: update_bids_def r book_inv_count)
qed

lemma book_inv_update_asks: "book_inv b \<Longrightarrow> book_inv (update_asks b entries)"
proof -
  assume inv: "book_inv b"
  obtain ps lv where r: "rebuild_side (sort_key fst entries) ([], Map.empty) = (ps, lv)"
    by (cases "rebuild_side (sort_key fst entries) ([], Map.empty)")
  have ok: "side_ok ps lv" using rebuild_side_ok[of "sort_key fst entries"] r by simp
  have srt: "sorted ps" using ask_rebuild_sorted[of entries] r by simp
  have "book_inv (update_caches (b\<lparr>ask_prices := ps, ask_levels := lv\<rparr>))"
    using inv ok srt by (intro update_caches_inv) (auto simp: book_inv_def cache_ok_def)
  then show ?thesis
    by (simp add: update_asks_def r book_inv_count)
qed

lemma reachable_inv: "reachable b \<Longrightarrow> book_inv b"
  by (induction rule: reachable.induct)
     (simp_all add: book_inv_init book_inv_update_bids book_inv_update_asks)

section \<open>Facts about the updates\<close>

lemma update_bids_fields:
  "bid_prices (update_bids b e) = fst (rebuild_side (sort_key (\<lambda>x. - fst x) e) ([], Map.empty))"
  "bid_levels (update_bids b e) = snd (rebuild_side (sort_key (\<lambda>x. - fst x) e) ([], Map.empty))"
  "ask_prices (update_bids b e) = ask_prices b"
  "ask_levels (update_bids b e) = ask_levels b"
  "symbol (update_bids b e) = symbol b"
  "max_levels (update_bids b e) = max_levels b"
  by (simp_all add: update_bids_def update_caches_def Let_def split: prod.splits list.splits)

lemma update_asks_fields:
  "ask_prices (update_asks b e) = fst (rebuild_side (sort_key fst e) ([], Map.empty))"
  "ask_levels (update_asks b e) = snd (rebuild_side (sort_key fst e) ([], Map.empty))"
  "bid_prices (update_asks b e) = bid_prices b"
  "bid_levels (update_asks b e) = bid_levels b"
  "symbol (update_asks b e) = symbol b"
  "max_levels (update_asks b e) = max_levels b"
  by (simp_all add: update_asks_def update_caches_def Let_def split: prod.splits list.splits)

lemma update_bids_caches:
  "cache_best_bid (update_bids b e) =
     (case bid_prices (update_bids b e) of [] \<Rightarrow> cache_best_bid b | p # _ \<Rightarrow> Some p)"
  "cache_best_ask (update_bids b e) =
     (case ask_prices b of [] \<Rightarrow> cache_best_ask b | p # _ \<Rightarrow> Some p)"
  "cache_mid_price (update_bids b e) =
     (if truthy (cache_best_bid (update_bids b e)) \<and> truthy (cache_best_ask (update_bids b e))
      then Some ((the (cache_best_bid (update_bids b e))
                  + the (cache_best_ask (update_bids b e))) / 2)
      else cache_mid_price b)"
  by (auto simp add: update_bids_def Let_def update_caches_best_bid update_caches_best_ask
        update_caches_mid split: prod.splits list.splits)

lemma update_asks_caches:
  "cache_best_ask (update_asks b e) =
     (case ask_prices (update_asks b e) of [] \<Rightarrow> cache_best_ask b | p # _ \<Rightarrow> Some p)"
  "cache_best_bid (update_asks b e) =
     (case bid_prices b of [] \<Rightarrow> cache_best_bid b | p # _ \<Rightarrow> Some p)"
  "cache_mid_price (update_asks b e) =
     (if truthy (cache_best_bid (update_asks b e)) \<and> truthy (cache_best_ask (update_asks b e))
      then Some ((the (cache_best_bid (update_asks b e))
                  + the (cache_best_ask (update_asks b e))) / 2)
      else cache_mid_price b)"
  by (auto simp add: update_asks_def Let_def update_caches_best_bid update_caches_best_ask
        update_caches_mid split: prod.splits list.splits)

section \<open>Facts about the queries\<close>

lemma depth_side_total:
  assumes "\<forall>p\<in>set ps. lv p \<noteq> None"
  shows "depth_side lv ps (infos, vol) =
     Inr (infos @ map (\<lambda>p. \<lparr>info_price = p, info_quantity = level_quantity lv p,
                             info_order_count = length (orders (the (lv p)))\<rparr>) ps,
          vol + side_liquidity lv ps)"
  using assms
  by (induction ps arbitrary: infos vol)
     (auto simp: side_liquidity_def level_quantity_def)

lemma vwap_walk_refines:
  assumes "\<forall>p\<in>set ps. lv p \<noteq> None"
  shows "vwap_walk q lv ps (tc, f) =
     Inr (tc + sum_list (map (\<lambda>(p, t). p * t)
                 (take_levels (q - f) (map (\<lambda>p. (p, level_quantity lv p)) ps))),
          f + sum_list (map snd
                 (take_levels (q - f) (map (\<lambda>p. (p, level_quantity lv p)) ps))))"
  using assms
proof (induction ps arbitrary: tc f)
  case Nil
  then show ?case by simp
next
  case (Cons p ps)
  then obtain l where l: "lv p = Some l" by auto
  have a: "level_quantity lv p = total_quantity l" by (simp add: level_quantity_def l)
  show ?case
  proof (cases "f + total_quantity l \<le> q")
    case True
    have c: "total_quantity l \<le> q - f" using True by simp
    have d: "q - (f + total_quantity l) = q - f - total_quantity l" by simp
    have "\<forall>p\<in>set ps. lv p \<noteq> None" using Cons.prems by simp
    from Cons.IH[OF this, of "tc + p * total_quantity l" "f + total_quantity l"]
    show ?thesis using True l c by (simp add: a d add.assoc Let_def)
  next
    case False
    with l a show ?thesis by (simp add: Let_def)
  qed
qed




lemma estimate_vwap_refines:
  assumes "book_inv b" "side = ''buy'' \<or> side = ''sell''"
  shows "estimate_vwap b q side =
     (let plan = take_levels q (opposing_side b side);
          cost = sum_list (map (\<lambda>(p, t). p * t) plan);
          got = sum_list (map snd plan)
      in if got = 0 then Inr \<lparr>vwap = 0, filled = 0, remaining = q\<rparr>
         else Inr \<lparr>vwap = cost / got, filled = got, remaining = q - got\<rparr>)"
proof (cases "side = ''buy''")
  case True
  have "\<forall>p\<in>set (ask_prices b). ask_levels b p \<noteq> None"
    using assms(1) by (auto simp: book_inv_def side_ok_def)
  from vwap_walk_refines[OF this, of q 0 0] True show ?thesis
    by (simp add: estimate_vwap_def opposing_side_def Let_def)
next
  case False
  then have s: "side = ''sell''" using assms(2) by simp
  have "\<forall>p\<in>set (bid_prices b). bid_levels b p \<noteq> None"
    using assms(1) by (auto simp: book_inv_def side_ok_def)
  from vwap_walk_refines[OF this, of q 0 0] s show ?thesis
    by (simp add: estimate_vwap_def opposing_side_def Let_def)
qed

section \<open>The example book\<close>

lemma reachable_example: "reachable example_book"
  unfolding example_book_def by (intro reachable.intros)

lemma example_bid_side:
  "bid_prices example_book = [100, 99]"
  "level_quantity (bid_levels example_book) 100 = 2"
  "level_quantity (bid_levels example_book) 99 = 3"
  by (simp_all add: example_book_def update_bids_fields update_asks_fields level_quantity_def
        add_order_def PriceLevel_init_def Order_init_def)

lemma example_ask_side:
  "ask_prices example_book = [101, 102]"
  "level_quantity (ask_levels example_book) 101 = 1"
  "level_quantity (ask_levels example_book) 102 = 4"
  by (simp_all add: example_book_def update_bids_fields update_asks_fields level_quantity_def
        add_order_def PriceLevel_init_def Order_init_def)

lemma example_caches:
  "cache_best_bid example_book = Some 100"
  "cache_best_ask example_book = Some 101"
  "cache_mid_price example_book = Some (201 / 2)"
proof -
  have inv: "book_inv example_book" by (rule reachable_inv[OF reachable_example])
  show bb: "cache_best_bid example_book = Some 100"
    using inv by (simp add: book_inv_def cache_ok_def example_bid_side)
  show ba: "cache_best_ask example_book = Some 101"
    using inv by (simp add: book_inv_def cache_ok_def example_ask_side)
  show "cache_mid_price example_book = Some (201 / 2)"
    using inv by (simp add: book_inv_def bb ba mid_of_def)
qed

section \<open>Claims\<close>

text \<open>
  C9. Applying the same update twice in a row, with an identical entry list, gives the same
  best bid, best ask, mid price and depth (at every level count) as applying it once; this
  holds from every book state, for \<open>update_bids\<close> and for \<open>update_asks\<close>.
\<close>

theorem update_twice_same_reads:
  "best_bid (update_bids (update_bids b e) e) = best_bid (update_bids b e)
   \<and> best_ask (update_bids (update_bids b e) e) = best_ask (update_bids b e)
   \<and> mid_price (update_bids (update_bids b e) e) = mid_price (update_bids b e)
   \<and> get_depth (update_bids (update_bids b e) e) n = get_depth (update_bids b e) n
   \<and> best_bid (update_asks (update_asks b e) e) = best_bid (update_asks b e)
   \<and> best_ask (update_asks (update_asks b e) e) = best_ask (update_asks b e)
   \<and> mid_price (update_asks (update_asks b e) e) = mid_price (update_asks b e)
   \<and> get_depth (update_asks (update_asks b e) e) n = get_depth (update_asks b e) n"
proof -
  let ?b1 = "update_bids b e" and ?b2 = "update_bids (update_bids b e) e"
  let ?a1 = "update_asks b e" and ?a2 = "update_asks (update_asks b e) e"
  have bp: "bid_prices ?b2 = bid_prices ?b1" "bid_levels ?b2 = bid_levels ?b1"
    "ask_prices ?b2 = ask_prices ?b1" "ask_levels ?b2 = ask_levels ?b1"
    by (simp_all add: update_bids_fields)
  have ap: "bid_prices ?a2 = bid_prices ?a1" "bid_levels ?a2 = bid_levels ?a1"
    "ask_prices ?a2 = ask_prices ?a1" "ask_levels ?a2 = ask_levels ?a1"
    by (simp_all add: update_asks_fields)
  have b1: "cache_best_bid ?b1 = (case bid_prices ?b1 of [] \<Rightarrow> cache_best_bid b | p # _ \<Rightarrow> Some p)"
    and b2: "cache_best_bid ?b2 = (case bid_prices ?b2 of [] \<Rightarrow> cache_best_bid ?b1 | p # _ \<Rightarrow> Some p)"
    by (rule update_bids_caches(1))+
  have bb: "cache_best_bid ?b2 = cache_best_bid ?b1"
  proof (cases "bid_prices ?b1")
    case Nil
    then show ?thesis using b2 by (simp add: bp(1))
  next
    case (Cons p ps)
    then show ?thesis using b1 b2 by (simp add: bp(1))
  qed
  have b3: "cache_best_ask ?b1 = (case ask_prices b of [] \<Rightarrow> cache_best_ask b | p # _ \<Rightarrow> Some p)"
    and b4: "cache_best_ask ?b2 = (case ask_prices ?b1 of [] \<Rightarrow> cache_best_ask ?b1 | p # _ \<Rightarrow> Some p)"
    by (rule update_bids_caches(2))+
  have ba: "cache_best_ask ?b2 = cache_best_ask ?b1"
  proof (cases "ask_prices b")
    case Nil
    then show ?thesis using b4 by (simp add: update_bids_fields)
  next
    case (Cons p ps)
    then show ?thesis using b3 b4 by (simp add: update_bids_fields)
  qed
  have b5: "cache_mid_price ?b1 =
      (if truthy (cache_best_bid ?b1) \<and> truthy (cache_best_ask ?b1)
       then Some ((the (cache_best_bid ?b1) + the (cache_best_ask ?b1)) / 2)
       else cache_mid_price b)"
    and b6: "cache_mid_price ?b2 =
      (if truthy (cache_best_bid ?b2) \<and> truthy (cache_best_ask ?b2)
       then Some ((the (cache_best_bid ?b2) + the (cache_best_ask ?b2)) / 2)
       else cache_mid_price ?b1)"
    by (rule update_bids_caches(3))+
  have bm: "cache_mid_price ?b2 = cache_mid_price ?b1"
    using b5 b6 unfolding bb ba by (cases "truthy (cache_best_bid ?b1) \<and> truthy (cache_best_ask ?b1)") simp_all
  have a1: "cache_best_ask ?a1 = (case ask_prices ?a1 of [] \<Rightarrow> cache_best_ask b | p # _ \<Rightarrow> Some p)"
    and a2: "cache_best_ask ?a2 = (case ask_prices ?a2 of [] \<Rightarrow> cache_best_ask ?a1 | p # _ \<Rightarrow> Some p)"
    by (rule update_asks_caches(1))+
  have aa: "cache_best_ask ?a2 = cache_best_ask ?a1"
  proof (cases "ask_prices ?a1")
    case Nil
    then show ?thesis using a2 by (simp add: ap(3))
  next
    case (Cons p ps)
    then show ?thesis using a1 a2 by (simp add: ap(3))
  qed
  have a3: "cache_best_bid ?a1 = (case bid_prices b of [] \<Rightarrow> cache_best_bid b | p # _ \<Rightarrow> Some p)"
    and a4: "cache_best_bid ?a2 = (case bid_prices ?a1 of [] \<Rightarrow> cache_best_bid ?a1 | p # _ \<Rightarrow> Some p)"
    by (rule update_asks_caches(2))+
  have ab: "cache_best_bid ?a2 = cache_best_bid ?a1"
  proof (cases "bid_prices b")
    case Nil
    then show ?thesis using a4 by (simp add: update_asks_fields)
  next
    case (Cons p ps)
    then show ?thesis using a3 a4 by (simp add: update_asks_fields)
  qed
  have a5: "cache_mid_price ?a1 =
      (if truthy (cache_best_bid ?a1) \<and> truthy (cache_best_ask ?a1)
       then Some ((the (cache_best_bid ?a1) + the (cache_best_ask ?a1)) / 2)
       else cache_mid_price b)"
    and a6: "cache_mid_price ?a2 =
      (if truthy (cache_best_bid ?a2) \<and> truthy (cache_best_ask ?a2)
       then Some ((the (cache_best_bid ?a2) + the (cache_best_ask ?a2)) / 2)
       else cache_mid_price ?a1)"
    by (rule update_asks_caches(3))+
  have am: "cache_mid_price ?a2 = cache_mid_price ?a1"
    using a5 a6 unfolding ab aa by (cases "truthy (cache_best_bid ?a1) \<and> truthy (cache_best_ask ?a1)") simp_all
  have bd: "get_depth ?b2 n = get_depth ?b1 n" by (simp only: get_depth_def bp)
  have ad: "get_depth ?a2 n = get_depth ?a1 n" by (simp only: get_depth_def ap)
  show ?thesis
    by (simp only: best_bid_def best_ask_def mid_price_def bb ba bm ab aa am bd ad simp_thms)
qed

theorem update_twice_same_reads_witness:
  "best_bid (update_bids (update_bids example_book [(100, 2), (99, 3)]) [(100, 2), (99, 3)])
     = best_bid (update_bids example_book [(100, 2), (99, 3)])
   \<and> get_depth (update_bids (update_bids example_book [(100, 2), (99, 3)]) [(100, 2), (99, 3)]) 10
     = get_depth (update_bids example_book [(100, 2), (99, 3)]) 10"
  using update_twice_same_reads[of example_book "[(100, 2), (99, 3)]" 10] by blast

text \<open>
  C10. From every reachable book state, \<open>update_bids\<close> leaves the ask price list, the ask
  levels and the cached best ask as they were, and \<open>update_asks\<close> leaves the bid price
  list, the bid levels and the cached best bid as they were. (Nothing is said of the
  cached mid price, which may change.)
\<close>

theorem update_frames_other_side:
  assumes "reachable b"
  shows "ask_prices (update_bids b e) = ask_prices b
     \<and> ask_levels (update_bids b e) = ask_levels b
     \<and> best_ask (update_bids b e) = best_ask b
     \<and> bid_prices (update_asks b e') = bid_prices b
     \<and> bid_levels (update_asks b e') = bid_levels b
     \<and> best_bid (update_asks b e') = best_bid b"
proof -
  have inv: "book_inv b" by (rule reachable_inv[OF assms])
  have ca: "cache_ok (ask_prices b) (cache_best_ask b)"
    and cb: "cache_ok (bid_prices b) (cache_best_bid b)"
    using inv by (simp_all add: book_inv_def)
  have a: "cache_best_ask (update_bids b e) = cache_best_ask b"
    using ca by (cases "ask_prices b") (simp_all add: update_bids_caches(2) cache_ok_def)
  have c: "cache_best_bid (update_asks b e') = cache_best_bid b"
    using cb by (cases "bid_prices b") (simp_all add: update_asks_caches(2) cache_ok_def)
  show ?thesis
    by (simp add: update_bids_fields update_asks_fields best_ask_def best_bid_def a c)
qed

theorem update_frames_other_side_witness:
  "reachable example_book
   \<and> ask_prices (update_bids example_book [(98, 7)]) = [101, 102]
   \<and> best_ask (update_bids example_book [(98, 7)]) = Some 101
   \<and> bid_prices (update_asks example_book [(103, 7)]) = [100, 99]
   \<and> best_bid (update_asks example_book [(103, 7)]) = Some 100"
  using update_frames_other_side[OF reachable_example, of "[(98, 7)]" "[(103, 7)]"]
    reachable_example
  by (simp add: example_bid_side example_ask_side example_caches best_ask_def best_bid_def)

text \<open>
  C6. In every reachable book state a present cached mid price is the mean of the cached
  best bid and best ask of that same state, and when both sides are populated the spread
  is best ask minus best bid and the mid price is their mean.
\<close>

theorem mid_price_consistent:
  assumes "reachable b"
  shows "(\<forall>m. mid_price b = Some m \<longrightarrow>
            (\<exists>x y. best_bid b = Some x \<and> best_ask b = Some y \<and> m = (x + y) / 2))
     \<and> (bid_prices b \<noteq> [] \<and> ask_prices b \<noteq> [] \<longrightarrow>
            (\<exists>x y. best_bid b = Some x \<and> best_ask b = Some y
               \<and> x = hd (bid_prices b) \<and> y = hd (ask_prices b)
               \<and> get_spread b = Some (y - x) \<and> mid_price b = Some ((x + y) / 2)))"
proof -
  have inv: "book_inv b" by (rule reachable_inv[OF assms])
  then have mid: "cache_mid_price b = mid_of (cache_best_bid b) (cache_best_ask b)"
    and cb: "cache_ok (bid_prices b) (cache_best_bid b)"
    and ca: "cache_ok (ask_prices b) (cache_best_ask b)"
    by (simp_all add: book_inv_def)
  have first: "\<forall>m. mid_price b = Some m \<longrightarrow>
      (\<exists>x y. best_bid b = Some x \<and> best_ask b = Some y \<and> m = (x + y) / 2)"
    using mid by (auto simp: mid_price_def best_bid_def best_ask_def mid_of_def
        split: option.splits)
  have second: "\<exists>x y. best_bid b = Some x \<and> best_ask b = Some y
        \<and> x = hd (bid_prices b) \<and> y = hd (ask_prices b)
        \<and> get_spread b = Some (y - x) \<and> mid_price b = Some ((x + y) / 2)"
    if ne: "bid_prices b \<noteq> [] \<and> ask_prices b \<noteq> []"
  proof -
    have x: "cache_best_bid b = Some (hd (bid_prices b))" "0 < hd (bid_prices b)"
      using cb ne by (simp_all add: cache_ok_def)
    have y: "cache_best_ask b = Some (hd (ask_prices b))" "0 < hd (ask_prices b)"
      using ca ne by (simp_all add: cache_ok_def)
    show ?thesis
      using x y mid
      by (simp add: best_bid_def best_ask_def get_spread_def mid_price_def truthy_def
          mid_of_def)
  qed
  from first second show ?thesis by blast
qed

theorem mid_price_consistent_witness:
  "reachable example_book \<and> bid_prices example_book \<noteq> [] \<and> ask_prices example_book \<noteq> []
   \<and> best_bid example_book = Some 100 \<and> best_ask example_book = Some 101
   \<and> get_spread example_book = Some 1 \<and> mid_price example_book = Some (201 / 2)"
  using mid_price_consistent[OF reachable_example] reachable_example
  by (simp add: example_bid_side example_ask_side)




text \<open>
  C4 (amended). For every reachable book state and every quantity, \<open>estimate_vwap\<close>
  raises exactly when the side is neither buy nor sell; \<open>estimate_slippage\<close> raises
  exactly when the side is neither buy nor sell and the cached mid price is present and
  non-zero; without a mid price it returns the zero result for every side, before the
  side is looked at; whatever either raises is the \<open>ValueError\<close> of the side check, and
  neither raises for buy or sell.
\<close>

theorem side_validation:
  assumes "reachable b"
  shows "(isl (estimate_vwap b q side) \<longleftrightarrow> side \<noteq> ''buy'' \<and> side \<noteq> ''sell'')
     \<and> (isl (estimate_slippage b q side)
          \<longleftrightarrow> side \<noteq> ''buy'' \<and> side \<noteq> ''sell'' \<and> truthy (mid_price b))
     \<and> (\<not> truthy (mid_price b) \<longrightarrow> estimate_slippage b q side = Inr zero_slippage)
     \<and> (\<forall>e. estimate_vwap b q side = Inl e \<or> estimate_slippage b q side = Inl e
          \<longrightarrow> e = ValueError side_message)"
proof (cases "side = ''buy'' \<or> side = ''sell''")
  case True
  have inv: "book_inv b" by (rule reachable_inv[OF assms])
  have z: "\<not> truthy (mid_price b) \<longrightarrow> estimate_slippage b q side = Inr zero_slippage"
    by (simp add: estimate_slippage_def)
  obtain r where r: "estimate_vwap b q side = Inr r"
    using estimate_vwap_refines[OF inv True, of q] by (auto simp: Let_def split: if_splits)
  then have "\<not> isl (estimate_slippage b q side)"
    by (simp add: estimate_slippage_def Let_def)
  moreover have "\<forall>e. estimate_slippage b q side \<noteq> Inl e"
    using r by (simp add: estimate_slippage_def Let_def)
  ultimately show ?thesis using r True z by auto
next
  case False
  then have v: "estimate_vwap b q side = Inl (ValueError side_message)"
    by (simp add: estimate_vwap_def)
  then have s: "estimate_slippage b q side =
      (if \<not> truthy (mid_price b) then Inr zero_slippage
       else Inl (ValueError side_message))"
    by (simp add: estimate_slippage_def)
  show ?thesis using False v s by auto
qed

theorem side_validation_witness:
  "reachable example_book
   \<and> estimate_vwap example_book 1 ''hold'' = Inl (ValueError side_message)
   \<and> estimate_slippage example_book 1 ''hold'' = Inl (ValueError side_message)
   \<and> \<not> isl (estimate_slippage example_book 1 ''sell'')
   \<and> reachable (OrderBook_init ''BTC-USD'' 1000)
   \<and> \<not> truthy (mid_price (OrderBook_init ''BTC-USD'' 1000))
   \<and> estimate_slippage (OrderBook_init ''BTC-USD'' 1000) 1 ''hold'' = Inr zero_slippage"
proof -
  have t: "truthy (mid_price example_book)"
    by (simp add: mid_price_def example_caches truthy_def)
  have n: "\<not> truthy (mid_price (OrderBook_init ''BTC-USD'' 1000))"
    by (simp add: mid_price_def OrderBook_init_def truthy_def)
  have i: "reachable (OrderBook_init ''BTC-USD'' 1000)" by (rule reachable.intros)
  have h: "isl (estimate_vwap example_book 1 ''hold'')"
      "isl (estimate_slippage example_book 1 ''hold'')"
    and e: "\<forall>e. estimate_vwap example_book 1 ''hold'' = Inl e
            \<or> estimate_slippage example_book 1 ''hold'' = Inl e
          \<longrightarrow> e = ValueError side_message"
    using side_validation[OF reachable_example, of 1 "''hold''"] t by simp_all
  have v: "estimate_vwap example_book 1 ''hold'' = Inl (ValueError side_message)"
    using h(1) e by (cases "estimate_vwap example_book 1 ''hold''") auto
  have s: "estimate_slippage example_book 1 ''hold'' = Inl (ValueError side_message)"
    using h(2) e by (cases "estimate_slippage example_book 1 ''hold''") auto
  have ok: "\<not> isl (estimate_slippage example_book 1 ''sell'')"
    using side_validation[OF reachable_example, of 1 "''sell''"] by simp
  have z: "estimate_slippage (OrderBook_init ''BTC-USD'' 1000) 1 ''hold'' = Inr zero_slippage"
    using side_validation[OF i, of 1 "''hold''"] n by blast
  show ?thesis using reachable_example v s ok i n z by simp
qed

theorem slippage_invalid_side_counterexample:
  "\<not> (isl (estimate_slippage (OrderBook_init ''BTC-USD'' 1000) 1 ''hold'')
        \<longleftrightarrow> ''hold'' \<notin> {''buy'', ''sell''})"
  by (simp add: estimate_slippage_def mid_price_def OrderBook_init_def truthy_def)

section \<open>Facts about the resilience score\<close>

lemma sum_squares_le_square_sum:
  assumes "\<forall>x\<in>set xs. (0::real) \<le> x"
  shows "sum_list (map (\<lambda>x. x\<^sup>2) xs) \<le> (sum_list xs)\<^sup>2"
  using assms
proof (induction xs)
  case Nil
  then show ?case by simp
next
  case (Cons a xs)
  have s: "0 \<le> sum_list xs" using Cons.prems by (intro sum_list_nonneg) simp
  have a: "0 \<le> a" using Cons.prems by simp
  have "sum_list (map (\<lambda>x. x\<^sup>2) (a # xs)) \<le> a\<^sup>2 + (sum_list xs)\<^sup>2"
    using Cons by simp
  also have "\<dots> \<le> a\<^sup>2 + 2 * a * sum_list xs + (sum_list xs)\<^sup>2"
    using a s by simp
  also have "\<dots> = (sum_list (a # xs))\<^sup>2" by (simp add: power2_sum)
  finally show ?case .
qed

lemma herfindahl_nonneg: "0 \<le> herfindahl_index vs"
  by (auto simp: herfindahl_index_def Let_def intro!: sum_list_nonneg)

lemma herfindahl_le_one:
  assumes "\<forall>v\<in>set vs. 0 \<le> v"
  shows "herfindahl_index vs \<le> 1"
proof (cases "sum_list vs = 0")
  case True
  then show ?thesis by (simp add: herfindahl_index_def)
next
  case False
  let ?T = "sum_list vs"
  have T: "0 < ?T" using assms False sum_list_nonneg[of vs] by (simp add: less_le)
  have shares: "\<forall>s\<in>set (map (\<lambda>v. v / ?T) vs). 0 \<le> s" using assms T by auto
  have one: "sum_list (map (\<lambda>v. v / ?T) vs) = 1"
    using T by (simp add: divide_inverse sum_list_mult_const)
  have "sum_list (map (\<lambda>v. (v / ?T)\<^sup>2) vs)
        = sum_list (map (\<lambda>x. x\<^sup>2) (map (\<lambda>v. v / ?T) vs))"
    by (simp add: comp_def)
  also have "\<dots> \<le> (sum_list (map (\<lambda>v. v / ?T) vs))\<^sup>2"
    by (rule sum_squares_le_square_sum[OF shares])
  finally show ?thesis using False one by (simp add: herfindahl_index_def Let_def)
qed

lemma resilience_range:
  "0 \<le> calculate_resilience_score d \<and> calculate_resilience_score d \<le> 100"
  by (simp add: calculate_resilience_score_def Let_def)

lemma resilience_few_levels:
  "length (bids d) < 3 \<or> length (asks d) < 3 \<Longrightarrow> calculate_resilience_score d = 0"
  by (auto simp: calculate_resilience_score_def)

lemma resilience_uniform_beats_concentrated:
  assumes u: "map info_quantity (bids d) = [5, 5, 5, 5, 5]"
    and c: "map info_quantity (bids d') = [20, 1, 1, 1, 1]"
    and same: "asks d' = asks d" and three: "3 \<le> length (asks d)"
    and pos: "\<forall>l\<in>set (asks d). 0 \<le> info_quantity l"
  shows "calculate_resilience_score d' < calculate_resilience_score d"
proof -
  let ?h = "herfindahl_index (map info_quantity (asks d))"
  have h0: "0 \<le> ?h" by (rule herfindahl_nonneg)
  have h1: "?h \<le> 1" using pos by (intro herfindahl_le_one) simp
  have "length (map info_quantity (bids d)) = 5" by (simp only: u) simp
  then have lu: "length (bids d) = 5" by simp
  have "length (map info_quantity (bids d')) = 5" by (simp only: c) simp
  then have lc: "length (bids d') = 5" by simp
  have hu: "herfindahl_index (map info_quantity (bids d)) = 1 / 5"
    by (simp add: u herfindahl_index_def power2_eq_square)
  have hc: "herfindahl_index (map info_quantity (bids d')) = 101 / 144"
    by (simp add: c herfindahl_index_def power2_eq_square)
  have su: "calculate_resilience_score d = 100 * (1 - (1 / 5 + ?h) / 2)"
    using three h0 h1 by (simp add: calculate_resilience_score_def Let_def lu hu)
  have sc: "calculate_resilience_score d' = 100 * (1 - (101 / 144 + ?h) / 2)"
    using three h0 h1 by (simp add: calculate_resilience_score_def Let_def lc hc same)
  show ?thesis unfolding su sc by simp
qed


lemma get_depth_levels:
  assumes "book_inv b"
  shows "\<exists>d. get_depth b n = Inr d
     \<and> map info_price (bids d)
         = (if n < 0 then take (length (bid_prices b) - nat (- n)) (bid_prices b)
            else take (nat n) (bid_prices b))
     \<and> map info_quantity (bids d) = map (level_quantity (bid_levels b)) (map info_price (bids d))
     \<and> map info_price (asks d)
         = (if n < 0 then take (length (ask_prices b) - nat (- n)) (ask_prices b)
            else take (nat n) (ask_prices b))
     \<and> map info_quantity (asks d) = map (level_quantity (ask_levels b)) (map info_price (asks d))
     \<and> (\<forall>l\<in>set (asks d). 0 < info_quantity l)"
proof -
  have sub: "set (py_take n xs) \<subseteq> set xs" for xs :: "real list"
    by (auto simp: py_take_def dest: in_set_takeD)
  have bo: "side_ok (bid_prices b) (bid_levels b)" and ao: "side_ok (ask_prices b) (ask_levels b)"
    using assms by (simp_all add: book_inv_def)
  have b: "\<forall>p\<in>set (py_take n (bid_prices b)). bid_levels b p \<noteq> None"
    using bo sub[of "bid_prices b"] by (auto simp: side_ok_def)
  have a: "\<forall>p\<in>set (py_take n (ask_prices b)). ask_levels b p \<noteq> None"
    using ao sub[of "ask_prices b"] by (auto simp: side_ok_def)
  have qa: "\<forall>p\<in>set (py_take n (ask_prices b)). 0 < level_quantity (ask_levels b) p"
    using ao sub[of "ask_prices b"] by (fastforce simp: side_ok_def level_quantity_def)
  have t: "py_take n xs = (if n < 0 then take (length xs - nat (- n)) xs else take (nat n) xs)"
    for xs :: "real list"
    by (simp add: py_take_def)
  show ?thesis
    using qa unfolding t[symmetric]
    by (simp add: get_depth_def depth_side_total[OF b] depth_side_total[OF a] comp_def)
qed

text \<open>
  C8 (amended). For every reachable book state the depth query of the analyzer succeeds
  and returns, for each side, the first \<open>depth_levels\<close> prices of the side (for a negative
  count, all but the last \<open>-depth_levels\<close>) with the stored quantity of each. The
  resilience score of the returned record is the score of that depth; it lies between 0
  and 100 and is 0 when either side has fewer than 3 levels in the queried depth. When the
  ask side has at least 3 levels in the queried depth and the queried bid quantities are
  \<open>[5,5,5,5,5]\<close>, the score is strictly higher than that of any depth with the same ask
  side and bid quantities \<open>[20,1,1,1,1]\<close>.
\<close>

theorem depth_resilience_score:
  assumes "reachable (depth_orderbook a)"
  shows "\<exists>d. get_depth (depth_orderbook a) (depth_levels a) = Inr d
     \<and> map info_price (bids d)
         = (if depth_levels a < 0
            then take (length (bid_prices (depth_orderbook a)) - nat (- depth_levels a))
                   (bid_prices (depth_orderbook a))
            else take (nat (depth_levels a)) (bid_prices (depth_orderbook a)))
     \<and> map info_quantity (bids d)
         = map (level_quantity (bid_levels (depth_orderbook a))) (map info_price (bids d))
     \<and> map info_price (asks d)
         = (if depth_levels a < 0
            then take (length (ask_prices (depth_orderbook a)) - nat (- depth_levels a))
                   (ask_prices (depth_orderbook a))
            else take (nat (depth_levels a)) (ask_prices (depth_orderbook a)))
     \<and> map info_quantity (asks d)
         = map (level_quantity (ask_levels (depth_orderbook a))) (map info_price (asks d))
     \<and> depth_resilience a = Inr (calculate_resilience_score d)
     \<and> 0 \<le> calculate_resilience_score d \<and> calculate_resilience_score d \<le> 100
     \<and> (length (bids d) < 3 \<or> length (asks d) < 3 \<longrightarrow> calculate_resilience_score d = 0)
     \<and> (\<forall>d'. map info_quantity (bids d) = [5, 5, 5, 5, 5]
            \<and> map info_quantity (bids d') = [20, 1, 1, 1, 1]
            \<and> asks d' = asks d \<and> 3 \<le> length (asks d)
          \<longrightarrow> calculate_resilience_score d' < calculate_resilience_score d)"
proof -
  let ?b = "depth_orderbook a" and ?n = "depth_levels a"
  have inv: "book_inv ?b" by (rule reachable_inv[OF assms])
  from get_depth_levels[OF inv, of ?n]
  obtain d where d: "get_depth ?b ?n = Inr d"
    and bp: "map info_price (bids d)
         = (if ?n < 0 then take (length (bid_prices ?b) - nat (- ?n)) (bid_prices ?b)
            else take (nat ?n) (bid_prices ?b))"
    and bq: "map info_quantity (bids d) = map (level_quantity (bid_levels ?b)) (map info_price (bids d))"
    and ap: "map info_price (asks d)
         = (if ?n < 0 then take (length (ask_prices ?b) - nat (- ?n)) (ask_prices ?b)
            else take (nat ?n) (ask_prices ?b))"
    and aq: "map info_quantity (asks d) = map (level_quantity (ask_levels ?b)) (map info_price (asks d))"
    and pos: "\<forall>l\<in>set (asks d). 0 < info_quantity l"
    by (elim exE conjE)
  have r: "depth_resilience a = Inr (calculate_resilience_score d)"
    by (auto simp: depth_resilience_def d calculate_resilience_score_def)
  have cmp: "\<forall>d'. map info_quantity (bids d) = [5, 5, 5, 5, 5]
            \<and> map info_quantity (bids d') = [20, 1, 1, 1, 1]
            \<and> asks d' = asks d \<and> 3 \<le> length (asks d)
          \<longrightarrow> calculate_resilience_score d' < calculate_resilience_score d"
  proof (intro allI impI)
    fix d' :: Depth
    assume h: "map info_quantity (bids d) = [5, 5, 5, 5, 5]
        \<and> map info_quantity (bids d') = [20, 1, 1, 1, 1]
        \<and> asks d' = asks d \<and> 3 \<le> length (asks d)"
    show "calculate_resilience_score d' < calculate_resilience_score d"
      using h pos by (intro resilience_uniform_beats_concentrated) (auto intro: less_imp_le)
  qed
  have few: "length (bids d) < 3 \<or> length (asks d) < 3 \<longrightarrow> calculate_resilience_score d = 0"
    using resilience_few_levels[of d] by blast
  have lo: "0 \<le> calculate_resilience_score d" and hi: "calculate_resilience_score d \<le> 100"
    using resilience_range[of d] by simp_all
  show ?thesis
    by (rule exI[of _ d]) (intro conjI d bp bq ap aq r lo hi few cmp)
qed

lemma reachable_uniform: "reachable uniform_book"
  unfolding uniform_book_def by (intro reachable.intros)

lemma uniform_depth:
  "get_depth uniform_book 20 =
     Inr \<lparr>bids = [\<lparr>info_price = 100, info_quantity = 5, info_order_count = 1\<rparr>,
                  \<lparr>info_price = 99, info_quantity = 5, info_order_count = 1\<rparr>,
                  \<lparr>info_price = 98, info_quantity = 5, info_order_count = 1\<rparr>,
                  \<lparr>info_price = 97, info_quantity = 5, info_order_count = 1\<rparr>,
                  \<lparr>info_price = 96, info_quantity = 5, info_order_count = 1\<rparr>],
          asks = [\<lparr>info_price = 101, info_quantity = 1, info_order_count = 1\<rparr>,
                  \<lparr>info_price = 102, info_quantity = 1, info_order_count = 1\<rparr>,
                  \<lparr>info_price = 103, info_quantity = 1, info_order_count = 1\<rparr>],
          total_bid_volume = 25, total_ask_volume = 3\<rparr>"
  by (simp add: get_depth_def uniform_book_def update_bids_fields update_asks_fields
        py_take_def add_order_def PriceLevel_init_def Order_init_def)

lemma concentrated_depth:
  "get_depth concentrated_book 20 =
     Inr \<lparr>bids = [\<lparr>info_price = 100, info_quantity = 20, info_order_count = 1\<rparr>,
                  \<lparr>info_price = 99, info_quantity = 1, info_order_count = 1\<rparr>,
                  \<lparr>info_price = 98, info_quantity = 1, info_order_count = 1\<rparr>,
                  \<lparr>info_price = 97, info_quantity = 1, info_order_count = 1\<rparr>,
                  \<lparr>info_price = 96, info_quantity = 1, info_order_count = 1\<rparr>],
          asks = [\<lparr>info_price = 101, info_quantity = 1, info_order_count = 1\<rparr>,
                  \<lparr>info_price = 102, info_quantity = 1, info_order_count = 1\<rparr>,
                  \<lparr>info_price = 103, info_quantity = 1, info_order_count = 1\<rparr>],
          total_bid_volume = 24, total_ask_volume = 3\<rparr>"
  by (simp add: get_depth_def concentrated_book_def update_bids_fields update_asks_fields
        py_take_def add_order_def PriceLevel_init_def Order_init_def)

theorem depth_resilience_score_witness:
  "reachable uniform_book
   \<and> (\<exists>du dc. get_depth uniform_book 20 = Inr du \<and> get_depth concentrated_book 20 = Inr dc
        \<and> depth_resilience \<lparr>depth_orderbook = uniform_book, depth_levels = 20\<rparr>
            = Inr (calculate_resilience_score du)
        \<and> map info_quantity (bids du) = [5, 5, 5, 5, 5]
        \<and> map info_quantity (bids dc) = [20, 1, 1, 1, 1]
        \<and> asks dc = asks du \<and> 3 \<le> length (asks du)
        \<and> calculate_resilience_score dc < calculate_resilience_score du
        \<and> calculate_resilience_score du \<le> 100)"
proof -
  let ?a = "\<lparr>depth_orderbook = uniform_book, depth_levels = 20\<rparr>"
  have r: "reachable (depth_orderbook ?a)" using reachable_uniform by simp
  from depth_resilience_score[OF r]
  obtain d where d: "get_depth (depth_orderbook ?a) (depth_levels ?a) = Inr d"
    and s: "depth_resilience ?a = Inr (calculate_resilience_score d)"
    and hi: "calculate_resilience_score d \<le> 100"
    and cmp: "\<forall>d'. map info_quantity (bids d) = [5, 5, 5, 5, 5]
            \<and> map info_quantity (bids d') = [20, 1, 1, 1, 1]
            \<and> asks d' = asks d \<and> 3 \<le> length (asks d)
          \<longrightarrow> calculate_resilience_score d' < calculate_resilience_score d"
    by (elim exE conjE)
  obtain dc where dc: "get_depth concentrated_book 20 = Inr dc"
    using concentrated_depth by blast
  have du: "get_depth uniform_book 20 = Inr d" using d by simp
  have bu: "map info_quantity (bids d) = [5, 5, 5, 5, 5]"
    and au: "map info_price (asks d) = [101, 102, 103]" "3 \<le> length (asks d)"
    using du unfolding uniform_depth by auto
  have bc: "map info_quantity (bids dc) = [20, 1, 1, 1, 1]"
    using dc unfolding concentrated_depth by auto
  have same: "asks dc = asks d"
    using dc du unfolding concentrated_depth uniform_depth by auto
  have lt: "calculate_resilience_score dc < calculate_resilience_score d"
    using cmp[rule_format, of dc] bu bc same au(2) by simp
  have s': "depth_resilience ?a = Inr (calculate_resilience_score d)" by (rule s)
  have body: "get_depth uniform_book 20 = Inr d \<and> get_depth concentrated_book 20 = Inr dc
        \<and> depth_resilience ?a = Inr (calculate_resilience_score d)
        \<and> map info_quantity (bids d) = [5, 5, 5, 5, 5]
        \<and> map info_quantity (bids dc) = [20, 1, 1, 1, 1]
        \<and> asks dc = asks d \<and> 3 \<le> length (asks d)
        \<and> calculate_resilience_score dc < calculate_resilience_score d
        \<and> calculate_resilience_score d \<le> 100"
    by (intro conjI du dc s' bu bc same au(2) lt hi)
  show ?thesis
    by (rule conjI[OF reachable_uniform], rule exI[of _ d], rule exI[of _ dc], rule body)
qed

theorem two_level_ask_side_counterexample:
  "get_depth thin_uniform_book 20 =
     Inr \<lparr>bids = [\<lparr>info_price = 100, info_quantity = 5, info_order_count = 1\<rparr>,
                  \<lparr>info_price = 99, info_quantity = 5, info_order_count = 1\<rparr>,
                  \<lparr>info_price = 98, info_quantity = 5, info_order_count = 1\<rparr>,
                  \<lparr>info_price = 97, info_quantity = 5, info_order_count = 1\<rparr>,
                  \<lparr>info_price = 96, info_quantity = 5, info_order_count = 1\<rparr>],
          asks = [\<lparr>info_price = 101, info_quantity = 1, info_order_count = 1\<rparr>,
                  \<lparr>info_price = 102, info_quantity = 1, info_order_count = 1\<rparr>],
          total_bid_volume = 25, total_ask_volume = 2\<rparr>
   \<and> get_depth thin_concentrated_book 20 =
     Inr \<lparr>bids = [\<lparr>info_price = 100, info_quantity = 20, info_order_count = 1\<rparr>,
                  \<lparr>info_price = 99, info_quantity = 1, info_order_count = 1\<rparr>,
                  \<lparr>info_price = 98, info_quantity = 1, info_order_count = 1\<rparr>,
                  \<lparr>info_price = 97, info_quantity = 1, info_order_count = 1\<rparr>,
                  \<lparr>info_price = 96, info_quantity = 1, info_order_count = 1\<rparr>],
          asks = [\<lparr>info_price = 101, info_quantity = 1, info_order_count = 1\<rparr>,
                  \<lparr>info_price = 102, info_quantity = 1, info_order_count = 1\<rparr>],
          total_bid_volume = 24, total_ask_volume = 2\<rparr>
   \<and> depth_resilience \<lparr>depth_orderbook = thin_uniform_book, depth_levels = 20\<rparr> = Inr 0
   \<and> depth_resilience \<lparr>depth_orderbook = thin_concentrated_book, depth_levels = 20\<rparr> = Inr 0"
proof -
  have u: "get_depth thin_uniform_book 20 =
     Inr \<lparr>bids = [\<lparr>info_price = 100, info_quantity = 5, info_order_count = 1\<rparr>,
                  \<lparr>info_price = 99, info_quantity = 5, info_order_count = 1\<rparr>,
                  \<lparr>info_price = 98, info_quantity = 5, info_order_count = 1\<rparr>,
                  \<lparr>info_price = 97, info_quantity = 5, info_order_count = 1\<rparr>,
                  \<lparr>info_price = 96, info_quantity = 5, info_order_count = 1\<rparr>],
          asks = [\<lparr>info_price = 101, info_quantity = 1, info_order_count = 1\<rparr>,
                  \<lparr>info_price = 102, info_quantity = 1, info_order_count = 1\<rparr>],
          total_bid_volume = 25, total_ask_volume = 2\<rparr>"
    by (simp add: get_depth_def thin_uniform_book_def update_bids_fields update_asks_fields
          py_take_def add_order_def PriceLevel_init_def Order_init_def)
  have c: "get_depth thin_concentrated_book 20 =
     Inr \<lparr>bids = [\<lparr>info_price = 100, info_quantity = 20, info_order_count = 1\<rparr>,
                  \<lparr>info_price = 99, info_quantity = 1, info_order_count = 1\<rparr>,
                  \<lparr>info_price = 98, info_quantity = 1, info_order_count = 1\<rparr>,
                  \<lparr>info_price = 97, info_quantity = 1, info_order_count = 1\<rparr>,
                  \<lparr>info_price = 96, info_quantity = 1, info_order_count = 1\<rparr>],
          asks = [\<lparr>info_price = 101, info_quantity = 1, info_order_count = 1\<rparr>,
                  \<lparr>info_price = 102, info_quantity = 1, info_order_count = 1\<rparr>],
          total_bid_volume = 24, total_ask_volume = 2\<rparr>"
    by (simp add: get_depth_def thin_concentrated_book_def update_bids_fields
          update_asks_fields py_take_def add_order_def PriceLevel_init_def Order_init_def)
  have su: "depth_resilience \<lparr>depth_orderbook = thin_uniform_book, depth_levels = 20\<rparr> = Inr 0"
    by (simp add: depth_resilience_def u calculate_resilience_score_def)
  have sc: "depth_resilience \<lparr>depth_orderbook = thin_concentrated_book, depth_levels = 20\<rparr> = Inr 0"
    by (simp add: depth_resilience_def c calculate_resilience_score_def)
  show ?thesis by (intro conjI u c su sc)
qed

section \<open>Facts about the wide-spread flag\<close>

lemma detect_reads_bps:
  "spread_bps m = spread_bps m' \<Longrightarrow> detect_wide_spread np a m = detect_wide_spread np a m'"
  by (simp add: detect_wide_spread_def)




lemma np_std_replicate: "np_std exact_numpy (replicate k c) = 0"
proof (cases "k = 0")
  case True
  then show ?thesis by (simp add: exact_numpy_def exact_std_def exact_mean_def)
next
  case False
  then have m: "exact_mean (replicate k c) = c"
    by (simp add: exact_mean_def sum_list_replicate)
  have "map (\<lambda>x. (x - c)\<^sup>2) (replicate k c) = replicate k 0" by simp
  then show ?thesis
    by (simp add: exact_numpy_def exact_std_def m) (simp add: exact_mean_def sum_list_replicate)
qed


lemma py_last_replicate: "py_last n (replicate k x) = replicate (k - (k - n)) x"
  by (simp add: py_last_def)

lemma reachable_quiet: "reachable quiet_book"
  unfolding quiet_book_def by (intro reachable.intros)


lemma quiet_book_reads:
  "best_bid quiet_book = Some 1023" "best_ask quiet_book = Some 1025"
  "mid_price quiet_book = Some 1024" "get_spread quiet_book = Some 2"
proof -
  have p: "bid_prices quiet_book = [1023]" "ask_prices quiet_book = [1025]"
    by (simp_all add: quiet_book_def update_bids_fields update_asks_fields)
  have inv: "book_inv quiet_book" by (rule reachable_inv[OF reachable_quiet])
  show bb: "best_bid quiet_book = Some 1023"
    using inv by (simp add: book_inv_def cache_ok_def p best_bid_def)
  show ba: "best_ask quiet_book = Some 1025"
    using inv by (simp add: book_inv_def cache_ok_def p best_ask_def)
  show "mid_price quiet_book = Some 1024"
    using inv bb ba by (simp add: book_inv_def mid_of_def mid_price_def best_bid_def best_ask_def)
  show "get_spread quiet_book = Some 2"
    using bb ba by (simp add: get_spread_def truthy_def)
qed


lemma quiet_book_depth:
  "get_depth quiet_book 10 =
     Inr \<lparr>bids = [\<lparr>info_price = 1023, info_quantity = 1, info_order_count = 1\<rparr>],
          asks = [\<lparr>info_price = 1025, info_quantity = 1, info_order_count = 1\<rparr>],
          total_bid_volume = 1, total_ask_volume = 1\<rparr>"
  by (simp add: get_depth_def quiet_book_def update_bids_fields update_asks_fields
        py_take_def add_order_def PriceLevel_init_def Order_init_def)


lemma quiet_price_impact:
  "orderbook a = quiet_book \<Longrightarrow> calculate_price_impact exact_numpy a 1 = Inr 2"
  by (simp add: calculate_price_impact_def Let_def quiet_book_reads quiet_book_depth truthy_def
        exact_numpy_def)


lemma detect_on_quiet_history:
  assumes "history a = replicate n quiet_metrics" "spread_bps m \<le> 50"
  shows "\<not> detect_wide_spread exact_numpy a m"
  using assms
  by (simp add: detect_wide_spread_def Let_def py_last_replicate np_std_replicate)

lemma calculate_all_metrics_value:
  assumes "get_spread (orderbook a) = Some s" and "mid_price (orderbook a) = Some mid"
    and "mid \<noteq> 0" and "calculate_price_impact np a 1 = Inr x"
    and "r = \<lparr>absolute_spread = s, relative_spread = s / mid * 100,
              spread_bps = s / mid * 100 * 100,
              effective_spread =
                (if truthy (best_bid (orderbook a)) \<and> truthy (best_ask (orderbook a))
                 then \<bar>2 * (mid - (the (best_bid (orderbook a))
                                    + the (best_ask (orderbook a))) / 2)\<bar>
                 else 0),
              price_impact = x,
              spread_volatility =
                (if 1 < length (history a) \<and> py_last 100 (history a) \<noteq> []
                 then np_std np (map absolute_spread (py_last 100 (history a))) else 0),
              is_wide_spread = detect_wide_spread np a r0\<rparr>"
    and "spread_bps r0 = s / mid * 100 * 100"
  shows "calculate_all_metrics np a =
     Inr (r, a\<lparr>history := (if max_history a < length (history a @ [r])
                             then tl (history a @ [r]) else history a @ [r])\<rparr>)"
proof -
  have d: "detect_wide_spread np a m = detect_wide_spread np a r0" if "spread_bps m = s / mid * 100 * 100" for m
    by (rule detect_reads_bps) (simp add: that assms(6))
  show ?thesis
    unfolding assms(5)
    by (simp add: calculate_all_metrics_def Let_def assms(1-4) SpreadMetrics_init_def d)
qed

lemma quiet_call:
  assumes "n < 1000"
  shows "calculate_all_metrics exact_numpy
           \<lparr>orderbook = quiet_book, history = replicate n quiet_metrics, max_history = 1000\<rparr>
         = Inr (quiet_metrics,
                \<lparr>orderbook = quiet_book, history = replicate (Suc n) quiet_metrics,
                 max_history = 1000\<rparr>)"
proof -
  let ?a = "\<lparr>orderbook = quiet_book, history = replicate n quiet_metrics, max_history = 1000\<rparr>"
  have d: "\<not> detect_wide_spread exact_numpy ?a quiet_metrics"
    by (rule detect_on_quiet_history[of _ n]) (simp_all add: quiet_metrics_def)
  have vol: "np_std exact_numpy (map absolute_spread (py_last 100 (replicate n m))) = 0" for m
    by (simp add: py_last_replicate np_std_replicate)
  have app: "replicate n quiet_metrics @ [quiet_metrics] = replicate (Suc n) quiet_metrics"
    by (simp add: replicate_append_same)
  have r: "quiet_metrics = \<lparr>absolute_spread = 2, relative_spread = 2 / 1024 * 100,
              spread_bps = 2 / 1024 * 100 * 100,
              effective_spread =
                (if truthy (best_bid (orderbook ?a)) \<and> truthy (best_ask (orderbook ?a))
                 then \<bar>2 * (1024 - (the (best_bid (orderbook ?a))
                                    + the (best_ask (orderbook ?a))) / 2)\<bar>
                 else 0),
              price_impact = 2,
              spread_volatility =
                (if 1 < length (history ?a) \<and> py_last 100 (history ?a) \<noteq> []
                 then np_std exact_numpy (map absolute_spread (py_last 100 (history ?a))) else 0),
              is_wide_spread = detect_wide_spread exact_numpy ?a quiet_metrics\<rparr>"
    using d by (simp add: quiet_metrics_def quiet_book_reads truthy_def vol)
  have "calculate_all_metrics exact_numpy ?a =
     Inr (quiet_metrics, ?a\<lparr>history := (if max_history ?a < length (history ?a @ [quiet_metrics])
                             then tl (history ?a @ [quiet_metrics])
                             else history ?a @ [quiet_metrics])\<rparr>)"
    by (rule calculate_all_metrics_value[where np = exact_numpy and s = 2 and mid = 1024 and x = 2
            and ?r0.0 = quiet_metrics, OF _ _ _ _ r])
       (simp_all add: quiet_book_reads quiet_price_impact quiet_metrics_def)
  then show ?thesis using assms by (simp add: app)
qed

lemma repeat_quiet:
  "n + k \<le> 1000 \<Longrightarrow>
   repeat_metrics exact_numpy k
     \<lparr>orderbook = quiet_book, history = replicate n quiet_metrics, max_history = 1000\<rparr>
   = Inr \<lparr>orderbook = quiet_book, history = replicate (n + k) quiet_metrics,
          max_history = 1000\<rparr>"
proof (induction k arbitrary: n)
  case 0
  then show ?case by simp
next
  case (Suc k)
  then have "n < 1000" "Suc n + k \<le> 1000" by simp_all
  with Suc.IH[of "Suc n"] show ?case by (simp add: quiet_call)
qed

lemma quiet_analyzer_reached:
  "repeat_metrics exact_numpy 10 (SpreadAnalyzer_init quiet_book) = Inr quiet_analyzer"
  using repeat_quiet[of 0 10] by (simp add: SpreadAnalyzer_init_def quiet_analyzer_def)





section \<open>What an update stores\<close>

lemma update_bids_prices:
  "bid_prices (update_bids b e) = map fst (sort_key (\<lambda>x. - fst x) (retained e))"
  by (simp add: update_bids_fields rebuild_side_prices retained_sort_key)

lemma update_asks_prices:
  "ask_prices (update_asks b e) = map fst (sort_key fst (retained e))"
  by (simp add: update_asks_fields rebuild_side_prices retained_sort_key)

lemma sorted_desc_hd_max:
  assumes "sorted (rev xs)" "xs \<noteq> []"
  shows "hd xs = Max (set (xs::real list))"
proof -
  obtain x rest where xs: "xs = x # rest" using assms(2) by (cases xs) auto
  have "\<forall>y\<in>set rest. y \<le> x" using assms(1) xs by (auto simp: sorted_append)
  then have "Max (set (x # rest)) = x" by (intro Max_eqI) auto
  then show ?thesis using xs by simp
qed

lemma sorted_asc_hd_min:
  assumes "sorted xs" "xs \<noteq> []"
  shows "hd xs = Min (set (xs::real list))"
proof -
  obtain x rest where xs: "xs = x # rest" using assms(2) by (cases xs) auto
  have "\<forall>y\<in>set rest. x \<le> y" using assms(1) xs by auto
  then have "Min (set (x # rest)) = x" by (intro Min_eqI) auto
  then show ?thesis using xs by simp
qed

lemma update_bids_best_is_max:
  assumes "retained e \<noteq> []"
  shows "best_bid (update_bids b e) = Some (Max (fst ` set (retained e)))"
proof -
  let ?ps = "bid_prices (update_bids b e)"
  have "length ?ps = length (retained e)" by (simp add: update_bids_prices)
  then have ne: "?ps \<noteq> []" using assms by auto
  have s: "sorted (rev ?ps)" using bid_rebuild_sorted[of e] by (simp add: update_bids_fields)
  have "set ?ps = fst ` set (retained e)" by (simp add: update_bids_prices)
  then have "hd ?ps = Max (fst ` set (retained e))" using sorted_desc_hd_max[OF s ne] by simp
  moreover have "best_bid (update_bids b e) = Some (hd ?ps)"
    using ne by (cases ?ps) (simp_all add: best_bid_def update_bids_caches(1))
  ultimately show ?thesis by simp
qed

lemma update_asks_best_is_min:
  assumes "retained e \<noteq> []"
  shows "best_ask (update_asks b e) = Some (Min (fst ` set (retained e)))"
proof -
  let ?ps = "ask_prices (update_asks b e)"
  have "length ?ps = length (retained e)" by (simp add: update_asks_prices)
  then have ne: "?ps \<noteq> []" using assms by auto
  have s: "sorted ?ps" using ask_rebuild_sorted[of e] by (simp add: update_asks_fields)
  have "set ?ps = fst ` set (retained e)" by (simp add: update_asks_prices)
  then have "hd ?ps = Min (fst ` set (retained e))" using sorted_asc_hd_min[OF s ne] by simp
  moreover have "best_ask (update_asks b e) = Some (hd ?ps)"
    using ne by (cases ?ps) (simp_all add: best_ask_def update_asks_caches(1))
  ultimately show ?thesis by simp
qed

lemma strict_desc_if_distinct:
  "sorted (rev xs) \<Longrightarrow> distinct xs \<Longrightarrow> sorted_wrt (\<lambda>x y. y < x) (xs::real list)"
  by (induction xs) (auto simp: sorted_append less_le)

lemma strict_asc_if_distinct:
  "sorted xs \<Longrightarrow> distinct xs \<Longrightarrow> sorted_wrt (\<lambda>x y. x < y) (xs::real list)"
  by (induction xs) (auto simp: less_le)

lemma distinct_prices_sort_key:
  "distinct (map fst xs) \<Longrightarrow> distinct (map fst (sort_key f xs))"
  by (metis distinct_map distinct_sort set_sort)

lemma update_bids_strict_if_distinct:
  assumes "distinct (map fst (retained e))"
  shows "sorted_wrt (\<lambda>x y. y < x) (bid_prices (update_bids b e))"
proof -
  have "sorted (rev (bid_prices (update_bids b e)))"
    using bid_rebuild_sorted[of e] by (simp add: update_bids_fields)
  moreover have "distinct (bid_prices (update_bids b e))"
    unfolding update_bids_prices by (rule distinct_prices_sort_key[OF assms])
  ultimately show ?thesis by (rule strict_desc_if_distinct)
qed

lemma update_asks_strict_if_distinct:
  assumes "distinct (map fst (retained e))"
  shows "sorted_wrt (\<lambda>x y. x < y) (ask_prices (update_asks b e))"
proof -
  have "sorted (ask_prices (update_asks b e))"
    using ask_rebuild_sorted[of e] by (simp add: update_asks_fields)
  moreover have "distinct (ask_prices (update_asks b e))"
    unfolding update_asks_prices by (rule distinct_prices_sort_key[OF assms])
  ultimately show ?thesis by (rule strict_asc_if_distinct)
qed

text \<open>
  C1. The claim: entries of one call that share a price end up as separate orders of one
  level, with their quantities summed. The code at \<open>[(100,1),(100,2)]\<close>: each entry makes
  a fresh one-order level and stores it under the price, so the level found under 100
  holds the last entry alone (one order, quantity 2, not two orders and 3), and the price
  list carries the price once per entry, so a depth query reports that level twice.
\<close>

theorem duplicate_price_entry_overwrites_level:
  "bid_prices (update_bids (OrderBook_init ''BTC-USD'' 1000) [(100, 1), (100, 2)]) = [100, 100]
   \<and> bid_levels (update_bids (OrderBook_init ''BTC-USD'' 1000) [(100, 1), (100, 2)]) 100
       = Some \<lparr>level_price = 100, orders = [Order_init 100 2], total_quantity = 2\<rparr>
   \<and> ask_prices (update_asks (OrderBook_init ''BTC-USD'' 1000) [(100, 1), (100, 2)]) = [100, 100]
   \<and> ask_levels (update_asks (OrderBook_init ''BTC-USD'' 1000) [(100, 1), (100, 2)]) 100
       = Some \<lparr>level_price = 100, orders = [Order_init 100 2], total_quantity = 2\<rparr>
   \<and> get_depth (update_bids (OrderBook_init ''BTC-USD'' 1000) [(100, 1), (100, 2)]) 10
       = Inr \<lparr>bids = [\<lparr>info_price = 100, info_quantity = 2, info_order_count = 1\<rparr>,
                        \<lparr>info_price = 100, info_quantity = 2, info_order_count = 1\<rparr>],
              asks = [], total_bid_volume = 4, total_ask_volume = 0\<rparr>"
  by (simp add: update_bids_fields update_asks_fields add_order_def PriceLevel_init_def
        Order_init_def get_depth_def py_take_def OrderBook_init_def)

text \<open>
  C3. The claim: after every update sequence the bid price list is strictly descending and
  the ask price list strictly ascending. The code at \<open>[(100,1),(100,2)]\<close>: the price 100
  is stored twice on the side, so neither list is strictly ordered. (The lists are always
  ordered non-strictly, strictly when the retained prices of the call are distinct, and
  the best price of a call that retains an entry is the maximum bid, the minimum ask: the
  lemmas above.)
\<close>

theorem duplicate_price_breaks_strict_order:
  "\<not> sorted_wrt (\<lambda>x y. y < x)
        (bid_prices (update_bids (OrderBook_init ''BTC-USD'' 1000) [(100, 1), (100, 2)]))
   \<and> \<not> sorted_wrt (\<lambda>x y. x < y)
        (ask_prices (update_asks (OrderBook_init ''BTC-USD'' 1000) [(100, 1), (100, 2)]))"
  by (simp add: update_bids_prices update_asks_prices retained_def)

text \<open>
  C2. The claim: after an update that leaves a side empty its best price is absent, and
  the spread is absent unless both sides are populated. The code on the example book
  (best bid 100, best ask 101): \<open>_update_caches\<close> writes a best price only when the side
  is non-empty and never clears it, so after \<open>update_bids([])\<close> the best bid is still 100
  and the spread still 1; likewise the best ask after \<open>update_asks([])\<close>.
\<close>

theorem emptied_side_keeps_best_price:
  "bid_prices (update_bids example_book []) = []
   \<and> best_bid (update_bids example_book []) = Some 100
   \<and> get_spread (update_bids example_book []) = Some 1
   \<and> ask_prices (update_asks example_book []) = []
   \<and> best_ask (update_asks example_book []) = Some 101
   \<and> get_spread (update_asks example_book []) = Some 1"
proof -
  have b: "bid_prices (update_bids example_book []) = []"
    and a: "ask_prices (update_asks example_book []) = []"
    by (simp_all add: update_bids_fields update_asks_fields)
  have bb: "cache_best_bid (update_bids example_book []) = Some 100"
    by (simp add: update_bids_caches(1) b example_caches)
  have ba: "cache_best_ask (update_bids example_book []) = Some 101"
    by (simp add: update_bids_caches(2) example_ask_side example_caches)
  have ab: "cache_best_bid (update_asks example_book []) = Some 100"
    by (simp add: update_asks_caches(2) example_bid_side example_caches)
  have aa: "cache_best_ask (update_asks example_book []) = Some 101"
    by (simp add: update_asks_caches(1) a example_caches)
  show ?thesis
    by (simp add: a b best_bid_def best_ask_def get_spread_def truthy_def bb ba ab aa)
qed

end
